theory Spec2Isabelle
  imports Main
begin

section \<open>Python strings used by the admin module\<close>

text \<open>
  The admin module \<open>admin.py\<close> works on Python \<open>str\<close> values. They are modelled as
  \<open>string\<close> (a list of \<open>char\<close>). Splitting at a \<open>.\<close> and replacing \<open>_\<close> and \<open>-\<close>
  work on any string. The case mapping of \<open>str.title\<close> is modelled for ASCII text, where
  the cased characters are \<open>A\<close>..\<open>Z\<close> and \<open>a\<close>..\<open>z\<close>, the title-case form of a letter is
  its upper-case form, and every other character is uncased and left as it is. For a
  string with a character outside ASCII, \<open>str.title\<close> follows the Unicode character
  database (it maps the German sharp s to \<open>Ss\<close>, for one), which is not part of the module: the
  result of \<open>title\<close> on such a string is left unspecified, so that nothing is stated
  about it.
\<close>

definition is_ascii :: "char \<Rightarrow> bool" where
  "is_ascii c = ((of_char c :: nat) < 128)"

definition is_upper :: "char \<Rightarrow> bool" where
  "is_upper c = (65 \<le> (of_char c :: nat) \<and> (of_char c :: nat) \<le> 90)"

definition is_lower :: "char \<Rightarrow> bool" where
  "is_lower c = (97 \<le> (of_char c :: nat) \<and> (of_char c :: nat) \<le> 122)"

definition is_cased :: "char \<Rightarrow> bool" where
  "is_cased c = (is_upper c \<or> is_lower c)"

definition to_lower :: "char \<Rightarrow> char" where
  "to_lower c = (if is_upper c then char_of ((of_char c :: nat) + 32) else c)"

definition to_title :: "char \<Rightarrow> char" where
  "to_title c = (if is_lower c then char_of ((of_char c :: nat) - 32) else c)"

text \<open>
  \<open>str.title()\<close> on ASCII text: one pass from left to right that remembers whether the
  previous character was cased. A character after a cased one is lower-cased, any other
  character is title-cased.
\<close>

fun title_from :: "bool \<Rightarrow> string \<Rightarrow> string" where
  "title_from previous_is_cased [] = []"
| "title_from previous_is_cased (c # cs) =
     (if previous_is_cased then to_lower c else to_title c) # title_from (is_cased c) cs"

definition title :: "string \<Rightarrow> string" where
  "title s = (if list_all is_ascii s then title_from False s else undefined)"

text \<open>
  \<open>s.replace(old, new)\<close> where \<open>old\<close> and \<open>new\<close> are single characters, the only form
  the module uses: every occurrence of \<open>old\<close> becomes \<open>new\<close>.
\<close>

definition replace :: "char \<Rightarrow> char \<Rightarrow> string \<Rightarrow> string" where
  "replace old new s = map (\<lambda>c. if c = old then new else c) s"

text \<open>
  \<open>s.rsplit(sep, 1)\<close> for a one-character separator: at most one split, at the last
  occurrence of \<open>sep\<close>. Without an occurrence the result is the one-element list \<open>[s]\<close>.
\<close>

definition rsplit1 :: "char \<Rightarrow> string \<Rightarrow> string list" where
  "rsplit1 sep s =
     (if sep \<in> set s
      then [rev (tl (dropWhile (\<lambda>c. c \<noteq> sep) (rev s))), rev (takeWhile (\<lambda>c. c \<noteq> sep) (rev s))]
      else [s])"

text \<open>
  A text between single quotes, and one between double quotes: the two quote characters
  cannot stand inside a string literal of the logic.
\<close>

definition sq :: "string \<Rightarrow> string" where
  "sq s = [CHR 0x27] @ s @ [CHR 0x27]"

definition dq :: "string \<Rightarrow> string" where
  "dq s = [CHR 0x22] @ s @ [CHR 0x22]"

datatype py_exception =
    AttributeError string
  | IndexError string
  | UnboundLocalError string
  | Exception string

text \<open>\<open>str(e)\<close>: the message the exception carries.\<close>

fun str_exc :: "py_exception \<Rightarrow> string" where
  "str_exc (AttributeError m) = m"
| "str_exc (IndexError m) = m"
| "str_exc (UnboundLocalError m) = m"
| "str_exc (Exception m) = m"

text \<open>\<open>xs[0]\<close>: the first element, \<open>IndexError\<close> on an empty list.\<close>

definition item0 :: "'a list \<Rightarrow> py_exception + 'a" where
  "item0 xs = (case xs of [] \<Rightarrow> Inl (IndexError ''list index out of range'') | x # _ \<Rightarrow> Inr x)"

section \<open>Deriving the display name (lines 94 and 97 of \<open>bulk_upload_view\<close>)\<close>

text \<open>
  \<open>filename = image.name.rsplit('.', 1)[0]\<close>
\<close>

definition filename_of :: "string \<Rightarrow> py_exception + string" where
  "filename_of image_name = item0 (rsplit1 (CHR ''.'') image_name)"

text \<open>
  \<open>name = filename.replace('_', ' ').replace('-', ' ').title()\<close>
\<close>

definition name_of :: "string \<Rightarrow> string" where
  "name_of filename = title (replace (CHR ''-'') (CHR '' '') (replace (CHR ''_'') (CHR '' '') filename))"

definition display_name :: "string \<Rightarrow> py_exception + string" where
  "display_name image_name =
     (case filename_of image_name of Inl e \<Rightarrow> Inl e | Inr filename \<Rightarrow> Inr (name_of filename))"

text \<open>\<open>str(n)\<close> for an integer: its decimal digits, with a minus sign when negative.\<close>

definition digit :: "nat \<Rightarrow> char" where
  "digit d = char_of (48 + d)"

function str_nat :: "nat \<Rightarrow> string" where
  "str_nat n = (if n < 10 then [digit n] else str_nat (n div 10) @ [digit (n mod 10)])"
  by pat_completeness auto
termination
  by (relation "measure id") auto

declare str_nat.simps [simp del]

definition str_int :: "int \<Rightarrow> string" where
  "str_int i = (if i < 0 then CHR ''-'' # str_nat (nat (- i)) else str_nat (nat i))"

section \<open>Uploaded files, records and the persistence store\<close>

text \<open>
  An uploaded file as the handler sees it: \<open>image.name\<close>, which the framework types as a
  string or \<open>None\<close>, and the payload.
\<close>

record uploaded_file =
  file_name :: "string option"
  file_content :: string

text \<open>
  Modelled from the spec: the model class \<open>Interiors\<close> is not part of the module (it is
  used, never defined). An \<open>Interiors\<close> object has the two attributes the handler passes,
  \<open>name\<close> and \<open>image\<close>. The persistence store is the sequence of records saved so far;
  a successful \<open>save()\<close> adds the record at the end. Whether constructing and saving a
  record succeeds is decided outside the module, so it is a parameter: \<open>save db r\<close> is
  \<open>None\<close> when record \<open>r\<close> is accepted in store \<open>db\<close>, and \<open>Some e\<close> when the
  construction or the save raises \<open>e\<close>. Only exceptions that are instances of Python's
  \<open>Exception\<close> are modelled.
\<close>

record 'img interiors =
  name :: string
  image :: 'img

type_synonym store = "uploaded_file interiors list"

type_synonym save = "store \<Rightarrow> uploaded_file interiors \<Rightarrow> py_exception option"

section \<open>The loop of \<open>bulk_upload_view\<close> (lines 88 to 107)\<close>

text \<open>
  The local variables of the handler that the loop changes, and the store. The local
  \<open>name\<close> is unbound (\<open>None\<close>) until line 97 first assigns it; the assignment outlives the
  iteration that made it.
\<close>

record loop_state =
  interiors_created :: int
  errors :: "string list"
  name_local :: "string option"
  store :: store

definition initial_state :: "store \<Rightarrow> loop_state" where
  "initial_state db = \<lparr>interiors_created = 0, errors = [], name_local = None, store = db\<rparr>"

text \<open>
  The \<open>try\<close> block, lines 93 to 105. \<open>Inl (e, st)\<close>: exception \<open>e\<close> was raised in state
  \<open>st\<close>; \<open>Inr st\<close>: the block ran to its end. \<open>image.name.rsplit\<close> on a \<open>None\<close> name
  raises \<open>AttributeError\<close>.
\<close>

definition try_body :: "save \<Rightarrow> loop_state \<Rightarrow> uploaded_file \<Rightarrow> (py_exception \<times> loop_state) + loop_state" where
  "try_body save st image_file =
     (case file_name image_file of
        None \<Rightarrow>
          Inl (AttributeError (sq ''NoneType'' @ '' object has no attribute '' @ sq ''rsplit''), st)
      | Some image_name \<Rightarrow>
          (case display_name image_name of
             Inl e \<Rightarrow> Inl (e, st)
           | Inr nm \<Rightarrow>
               let st1 = st\<lparr>name_local := Some nm\<rparr>;
                   interior = \<lparr>name = nm, image = image_file\<rparr>
               in (case save (store st1) interior of
                     Some e \<Rightarrow> Inl (e, st1)
                   | None \<Rightarrow>
                       Inr (st1\<lparr>store := store st1 @ [interior],
                                interiors_created := interiors_created st1 + 1\<rparr>))))"

text \<open>
  The \<open>except Exception as e\<close> block, line 107:
  \<open>errors.append(f"Error creating interior '{name}': {str(e)}")\<close>.
  Reading the local \<open>name\<close> while it is unbound raises \<open>UnboundLocalError\<close> inside the
  handler, which nothing in the loop catches.
\<close>

definition error_line :: "string \<Rightarrow> py_exception \<Rightarrow> string" where
  "error_line nm e = ''Error creating interior '' @ sq nm @ '': '' @ str_exc e"

definition except_block :: "py_exception \<Rightarrow> loop_state \<Rightarrow> (py_exception \<times> loop_state) + loop_state" where
  "except_block e st =
     (case name_local st of
        None \<Rightarrow>
          Inl (UnboundLocalError
                 (''cannot access local variable '' @ sq ''name''
                    @ '' where it is not associated with a value''), st)
      | Some nm \<Rightarrow> Inr (st\<lparr>errors := errors st @ [error_line nm e]\<rparr>))"

text \<open>One iteration of the loop, lines 92 to 107.\<close>

definition process_image :: "save \<Rightarrow> loop_state \<Rightarrow> uploaded_file \<Rightarrow> (py_exception \<times> loop_state) + loop_state" where
  "process_image save st image_file =
     (case try_body save st image_file of
        Inr st' \<Rightarrow> Inr st'
      | Inl (e, st') \<Rightarrow> except_block e st')"

text \<open>\<open>for image in images\<close>: an exception that leaves an iteration ends the loop.\<close>

fun for_images :: "save \<Rightarrow> loop_state \<Rightarrow> uploaded_file list \<Rightarrow> (py_exception \<times> loop_state) + loop_state" where
  "for_images save st [] = Inr st"
| "for_images save st (image_file # images) =
     (case process_image save st image_file of
        Inl ex \<Rightarrow> Inl ex
      | Inr st' \<Rightarrow> for_images save st' images)"

section \<open>The view \<open>bulk_upload_view\<close> (lines 82 to 125)\<close>

text \<open>
  The request carries its method (\<open>request.method\<close>) and the multi-valued dictionary \<open>request.FILES\<close>;
  \<open>getlist\<close> gives the values of a key in order, and the empty list for a missing key.
  The messages framework is the list of notifications queued so far, each with its
  level. Form validation belongs to the framework: \<open>form.is_valid()\<close> is the parameter
  \<open>is_valid\<close>.
\<close>

record request =
  request_method :: string
  FILES :: "string \<rightharpoonup> uploaded_file list"

definition getlist :: "(string \<rightharpoonup> 'a list) \<Rightarrow> string \<Rightarrow> 'a list" where
  "getlist d k = (case d k of None \<Rightarrow> [] | Some vs \<Rightarrow> vs)"

datatype message = Success string | Error string

datatype form = Unbound | Bound

datatype response = Redirect string | Render string form

record view_result =
  response :: response
  messages :: "message list"
  saved :: store

definition bulk_upload_view ::
  "save \<Rightarrow> (request \<Rightarrow> bool) \<Rightarrow> request \<Rightarrow> message list \<Rightarrow> store \<Rightarrow> (py_exception \<times> loop_state) + view_result" where
  "bulk_upload_view save is_valid req msgs db =
     (if request_method req = ''POST'' then
        (if is_valid req then
           (let images = getlist (FILES req) ''images'' in
            case for_images save (initial_state db) images of
              Inl ex \<Rightarrow> Inl ex
            | Inr st \<Rightarrow>
                let msgs1 =
                      (if interiors_created st > 0
                       then msgs @ [Success (''Successfully created '' @ str_int (interiors_created st) @ '' interiors.'')]
                       else msgs);
                    msgs2 = msgs1 @ map Error (errors st)
                in Inr \<lparr>response = Redirect ''admin:interiors_interiors_changelist'',
                        messages = msgs2, saved = store st\<rparr>)
         else Inr \<lparr>response = Render ''admin/interiors/bulk_upload.html'' Bound,
                   messages = msgs, saved = db\<rparr>)
      else Inr \<lparr>response = Render ''admin/interiors/bulk_upload.html'' Unbound,
                messages = msgs, saved = db\<rparr>)"

section \<open>\<open>image_preview\<close> (lines 128 to 132)\<close>

text \<open>
  Modelled from the spec: the image attribute of a stored record is the binary content
  with the retrieval URL the storage derived for it. \<open>obj.image\<close> is falsy when the record
  has no file; that is \<open>None\<close> here.
\<close>

record field_file =
  url :: string

text \<open>
  \<open>format_html(format_string, *args)\<close> escapes every argument and then formats. The
  escaping is the one of \<open>html.escape\<close>. Of \<open>str.format\<close> the automatic field \<open>{}\<close>
  and the doubled braces are modelled; a single brace is a \<open>ValueError\<close>, a missing
  argument an \<open>IndexError\<close>; other replacement fields are not modelled and reported
  as \<open>NotModelled\<close>.
\<close>

fun escape_char :: "char \<Rightarrow> string" where
  "escape_char c =
     (if c = CHR ''&'' then ''&amp;''
      else if c = CHR ''<'' then ''&lt;''
      else if c = CHR ''>'' then ''&gt;''
      else if c = CHR 0x22 then ''&quot;''
      else if c = CHR 0x27 then ''&#x27;''
      else [c])"

definition conditional_escape :: "string \<Rightarrow> string" where
  "conditional_escape s = concat (map escape_char s)"

datatype format_error = ValueError string | FormatIndexError string | NotModelled

fun format :: "string \<Rightarrow> string list \<Rightarrow> format_error + string" where
  "format [] args = Inr []"
| "format (c # cs) args =
     (if c = CHR ''{'' then
        (case cs of
           [] \<Rightarrow> Inl (ValueError ''Single { encountered in format string'')
         | d # ds \<Rightarrow>
             if d = CHR ''{'' then
               (case format ds args of Inl e \<Rightarrow> Inl e | Inr r \<Rightarrow> Inr (CHR ''{'' # r))
             else if d = CHR ''}'' then
               (case args of
                  [] \<Rightarrow> Inl (FormatIndexError ''Replacement index out of range for positional args tuple'')
                | a # as \<Rightarrow> (case format ds as of Inl e \<Rightarrow> Inl e | Inr r \<Rightarrow> Inr (a @ r)))
             else Inl NotModelled)
      else if c = CHR ''}'' then
        (case cs of
           [] \<Rightarrow> Inl (ValueError ''Single } encountered in format string'')
         | d # ds \<Rightarrow>
             if d = CHR ''}'' then
               (case format ds args of Inl e \<Rightarrow> Inl e | Inr r \<Rightarrow> Inr (CHR ''}'' # r))
             else Inl (ValueError ''Single } encountered in format string''))
      else (case format cs args of Inl e \<Rightarrow> Inl e | Inr r \<Rightarrow> Inr (c # r)))"

definition format_html :: "string \<Rightarrow> string list \<Rightarrow> format_error + string" where
  "format_html format_string args = format format_string (map conditional_escape args)"

definition image_preview :: "field_file option interiors \<Rightarrow> format_error + string" where
  "image_preview obj =
     (case image obj of
        Some img \<Rightarrow>
          format_html
            (''<img src='' @ dq ''{}'' @ '' style=''
               @ dq ''max-width: 100px; max-height: 100px; border-radius:5px;'' @ '' />'')
            [url img]
      | None \<Rightarrow> Inr ''No Image'')"

section \<open>\<open>changelist_view\<close> (lines 136 to 149)\<close>

text \<open>
  \<open>request.GET\<close> and \<open>request.session\<close> are dictionaries from strings to strings.
  The view computes the view mode, stores it in the session when the query string gave it,
  and puts it into the extra context handed to the inherited view, which is not part of
  the module. The result is the extra context and the session the request leaves behind.
\<close>

record changelist_request =
  GET :: "string \<rightharpoonup> string"
  session :: "string \<rightharpoonup> string"

definition changelist_view ::
  "changelist_request \<Rightarrow> (string \<rightharpoonup> string) option \<Rightarrow> (string \<rightharpoonup> string) \<times> (string \<rightharpoonup> string)" where
  "changelist_view req extra_context =
     (let extra = (case extra_context of None \<Rightarrow> Map.empty | Some c \<Rightarrow> c) in
      case GET req ''view'' of
        Some view_mode \<Rightarrow>
          (extra(''view_mode'' \<mapsto> view_mode), (session req)(''view_mode'' \<mapsto> view_mode))
      | None \<Rightarrow>
          (let view_mode = (case session req ''view_mode'' of None \<Rightarrow> ''list'' | Some v \<Rightarrow> v)
           in (extra(''view_mode'' \<mapsto> view_mode), session req)))"

text \<open>
  Modelled from the spec: the session store is not part of the module. It hands each
  request of a session the state the previous request of that session left. \<open>serve\<close> runs
  the changelist requests of one session, given by their query parameters, in order.
\<close>

fun serve :: "(string \<rightharpoonup> string) \<Rightarrow> (string \<rightharpoonup> string) list \<Rightarrow> (string \<rightharpoonup> string)" where
  "serve sess [] = sess"
| "serve sess (query # queries) =
     serve (snd (changelist_view \<lparr>GET = query, session = sess\<rparr> None)) queries"

section \<open>Batches in which files succeed\<close>

text \<open>
  Every file of the batch has its \<open>try\<close> block run to the end, each file meeting the
  store that the files before it left.
\<close>

fun all_succeed :: "save \<Rightarrow> store \<Rightarrow> uploaded_file list \<Rightarrow> bool" where
  "all_succeed save db [] = True"
| "all_succeed save db (image_file # images) =
     (case try_body save (initial_state db) image_file of
        Inl ex \<Rightarrow> False
      | Inr st \<Rightarrow> all_succeed save (store st) images)"

text \<open>
  The state in which the loop stops: the state at its end, or the state in which the
  exception that left it was raised. The store a batch leaves behind is the store of
  that state.
\<close>

definition end_state :: "(py_exception \<times> loop_state) + loop_state \<Rightarrow> loop_state" where
  "end_state r = (case r of Inl (e, st) \<Rightarrow> st | Inr st \<Rightarrow> st)"

definition store_after :: "save \<Rightarrow> store \<Rightarrow> uploaded_file list \<Rightarrow> store" where
  "store_after save db images = store (end_state (for_images save (initial_state db) images))"


section \<open>Persistence stores and uploads for the examples\<close>

text \<open>
  A store that accepts every record, one whose \<open>save()\<close> raises for the records of one
  given name and accepts the others, and one whose \<open>save()\<close> raises for a record with
  an empty name.
\<close>

definition accept_all :: save where
  "accept_all db r = None"

definition reject_name :: "string \<Rightarrow> save" where
  "reject_name nm db r = (if name r = nm then Some (Exception ''save failed'') else None)"


text \<open>An example upload: a file with the given name.\<close>

definition upload :: "string \<Rightarrow> uploaded_file" where
  "upload fn = \<lparr>file_name = Some fn, file_content = ''data''\<rparr>"

text \<open>
  Example requests: a POST that carries the given files in its \<open>images\<close> field, and a
  form validation that accepts every request.
\<close>

definition post_of :: "uploaded_file list \<Rightarrow> request" where
  "post_of images = \<lparr>request_method = ''POST'', FILES = [''images'' \<mapsto> images]\<rparr>"

definition always_valid :: "request \<Rightarrow> bool" where
  "always_valid req = True"

section \<open>Properties of the string operations\<close>

lemma rsplit1_no_sep: "sep \<notin> set s \<Longrightarrow> rsplit1 sep s = [s]"
  by (simp add: rsplit1_def)

lemma split_at_last:
  assumes "sep \<in> set s"
  shows "s = rev (tl (dropWhile (\<lambda>c. c \<noteq> sep) (rev s))) @ [sep] @ rev (takeWhile (\<lambda>c. c \<noteq> sep) (rev s))"
proof -
  let ?P = "\<lambda>c. c \<noteq> sep"
  from assms have "dropWhile ?P (rev s) \<noteq> []"
    by (simp add: dropWhile_eq_Nil_conv)
  moreover have "\<not> ?P (hd (dropWhile ?P (rev s)))" if "dropWhile ?P (rev s) \<noteq> []"
    using that by (rule hd_dropWhile)
  ultimately have d: "dropWhile ?P (rev s) = sep # tl (dropWhile ?P (rev s))"
    by (cases "dropWhile ?P (rev s)") auto
  have "rev s = takeWhile ?P (rev s) @ dropWhile ?P (rev s)"
    by simp
  then have "rev s = takeWhile ?P (rev s) @ sep # tl (dropWhile ?P (rev s))"
    using d by simp
  then have "rev (rev s) = rev (takeWhile ?P (rev s) @ sep # tl (dropWhile ?P (rev s)))"
    by simp
  then show ?thesis
    by simp
qed

lemma rsplit1_sep:
  assumes "sep \<in> set s"
  shows "\<exists>b e. rsplit1 sep s = [b, e] \<and> s = b @ [sep] @ e \<and> sep \<notin> set e"
proof -
  let ?b = "rev (tl (dropWhile (\<lambda>c. c \<noteq> sep) (rev s)))"
  let ?e = "rev (takeWhile (\<lambda>c. c \<noteq> sep) (rev s))"
  have "rsplit1 sep s = [?b, ?e]"
    using assms by (simp add: rsplit1_def)
  moreover have "s = ?b @ [sep] @ ?e"
    using assms by (rule split_at_last)
  moreover have "sep \<notin> set ?e"
    by (auto dest: set_takeWhileD)
  ultimately show ?thesis
    by blast
qed



lemma of_char_special:
  "of_char (CHR ''_'') = (95::nat)" "of_char (CHR ''-'') = (45::nat)" "of_char (CHR '' '') = (32::nat)"
  by simp_all

lemma char_eq_code: "(c = d) = ((of_char c :: nat) = of_char d)"
  by simp








section \<open>The display name\<close>

lemma filename_of_no_dot: "CHR ''.'' \<notin> set fn \<Longrightarrow> filename_of fn = Inr fn"
  by (simp add: filename_of_def item0_def rsplit1_no_sep)


lemma filename_of_total: "\<exists>b. filename_of fn = Inr b"
proof (cases "CHR ''.'' \<in> set fn")
  case True
  then have "\<exists>b e. rsplit1 (CHR ''.'') fn = [b, e] \<and> fn = b @ [CHR ''.''] @ e \<and> CHR ''.'' \<notin> set e"
    by (rule rsplit1_sep)
  then obtain b e where "rsplit1 (CHR ''.'') fn = [b, e]"
    by (elim exE conjE)
  then show ?thesis
    by (simp add: filename_of_def item0_def)
next
  case False
  then show ?thesis
    by (simp add: filename_of_no_dot)
qed



lemma name_of_map:
  "name_of b = title (map (\<lambda>c. if c = CHR ''_'' \<or> c = CHR ''-'' then CHR '' '' else c) b)"
proof -
  have "(\<lambda>c. if (if c = CHR ''_'' then CHR '' '' else c) = CHR ''-'' then CHR '' ''
              else (if c = CHR ''_'' then CHR '' '' else c))
        = (\<lambda>c. if c = CHR ''_'' \<or> c = CHR ''-'' then CHR '' '' else c)"
    by (rule ext) simp
  then show ?thesis
    by (simp add: name_of_def replace_def comp_def)
qed










section \<open>One iteration of the loop\<close>

lemma display_name_total: "\<exists>nm. display_name fn = Inr nm"
proof -
  obtain b where "filename_of fn = Inr b"
    using filename_of_total [of fn] by (elim exE)
  then show ?thesis
    by (simp add: display_name_def)
qed

lemma try_body_nameless:
  "file_name im = None \<Longrightarrow>
   try_body save st im
     = Inl (AttributeError (sq ''NoneType'' @ '' object has no attribute '' @ sq ''rsplit''), st)"
  by (simp add: try_body_def)

lemma try_body_saved:
  "file_name im = Some fn \<Longrightarrow> display_name fn = Inr nm \<Longrightarrow>
   save (store st) \<lparr>name = nm, image = im\<rparr> = None \<Longrightarrow>
   try_body save st im
     = Inr (st\<lparr>name_local := Some nm, store := store st @ [\<lparr>name = nm, image = im\<rparr>],
               interiors_created := interiors_created st + 1\<rparr>)"
  by (simp add: try_body_def)

lemma try_body_rejected:
  "file_name im = Some fn \<Longrightarrow> display_name fn = Inr nm \<Longrightarrow>
   save (store st) \<lparr>name = nm, image = im\<rparr> = Some e \<Longrightarrow>
   try_body save st im = Inl (e, st\<lparr>name_local := Some nm\<rparr>)"
  by (simp add: try_body_def)

lemma process_image_saved:
  "file_name im = Some fn \<Longrightarrow> display_name fn = Inr nm \<Longrightarrow>
   save (store st) \<lparr>name = nm, image = im\<rparr> = None \<Longrightarrow>
   process_image save st im
     = Inr (st\<lparr>name_local := Some nm, store := store st @ [\<lparr>name = nm, image = im\<rparr>],
               interiors_created := interiors_created st + 1\<rparr>)"
  by (simp add: process_image_def try_body_saved)

lemma process_image_rejected:
  "file_name im = Some fn \<Longrightarrow> display_name fn = Inr nm \<Longrightarrow>
   save (store st) \<lparr>name = nm, image = im\<rparr> = Some e \<Longrightarrow>
   process_image save st im
     = Inr (st\<lparr>name_local := Some nm, errors := errors st @ [error_line nm e]\<rparr>)"
  by (simp add: process_image_def try_body_rejected except_block_def)

lemma process_image_nameless_bound:
  "file_name im = None \<Longrightarrow> name_local st = Some nm \<Longrightarrow>
   process_image save st im
     = Inr (st\<lparr>errors := errors st @
              [error_line nm
                 (AttributeError (sq ''NoneType'' @ '' object has no attribute '' @ sq ''rsplit''))]\<rparr>)"
  by (simp add: process_image_def try_body_nameless except_block_def)

lemma process_image_nameless_unbound:
  "file_name im = None \<Longrightarrow> name_local st = None \<Longrightarrow>
   process_image save st im
     = Inl (UnboundLocalError
              (''cannot access local variable '' @ sq ''name''
                 @ '' where it is not associated with a value''), st)"
  by (simp add: process_image_def try_body_nameless except_block_def)

text \<open>
  The four ways an iteration can go: the file has no name and the local \<open>name\<close> is
  unbound or bound, or it has a name and the store rejects or accepts the record.
\<close>

lemma process_image_cases:
  fixes save :: save and st :: loop_state and im :: uploaded_file
  obtains
    (unbound) "file_name im = None" "name_local st = None"
  | (stale) nm where "file_name im = None" "name_local st = Some nm"
  | (rejected) fn nm e where "file_name im = Some fn" "display_name fn = Inr nm"
      "save (store st) \<lparr>name = nm, image = im\<rparr> = Some e"
  | (saved) fn nm where "file_name im = Some fn" "display_name fn = Inr nm"
      "save (store st) \<lparr>name = nm, image = im\<rparr> = None"
proof (cases "file_name im")
  case None
  then show ?thesis
    using unbound stale by (cases "name_local st") simp_all
next
  case (Some fn)
  obtain nm where nm: "display_name fn = Inr nm"
    using display_name_total [of fn] by (elim exE)
  show ?thesis
  proof (cases "save (store st) \<lparr>name = nm, image = im\<rparr>")
    case None
    then show ?thesis using Some nm saved by simp
  next
    case (Some e)
    then show ?thesis using \<open>file_name im = Some fn\<close> nm rejected by simp
  qed
qed

lemma for_images_append:
  "for_images save st (xs @ ys)
     = (case for_images save st xs of Inl ex \<Rightarrow> Inl ex | Inr st' \<Rightarrow> for_images save st' ys)"
  by (induction xs arbitrary: st) (simp_all split: sum.splits)

section \<open>Counting successes and errors\<close>

lemma process_image_one_outcome:
  assumes "process_image save st im = Inr st'"
  shows "(interiors_created st' = interiors_created st + 1 \<and> errors st' = errors st)
         \<or> (interiors_created st' = interiors_created st \<and> (\<exists>line. errors st' = errors st @ [line]))"
proof (cases rule: process_image_cases [where save = save and st = st and im = im])
  case unbound
  then show ?thesis
    using assms by (simp add: process_image_nameless_unbound)
next
  case (stale nm)
  then have "st' = st\<lparr>errors := errors st @
      [error_line nm (AttributeError (sq ''NoneType'' @ '' object has no attribute '' @ sq ''rsplit''))]\<rparr>"
    using assms by (simp add: process_image_nameless_bound)
  then show ?thesis
    by simp
next
  case (rejected fn nm e)
  then have "st' = st\<lparr>name_local := Some nm, errors := errors st @ [error_line nm e]\<rparr>"
    using assms by (simp add: process_image_rejected)
  then show ?thesis
    by simp
next
  case (saved fn nm)
  then have "st' = st\<lparr>name_local := Some nm, store := store st @ [\<lparr>name = nm, image = im\<rparr>],
                       interiors_created := interiors_created st + 1\<rparr>"
    using assms by (simp add: process_image_saved)
  then show ?thesis
    by simp
qed

lemma for_images_count:
  "for_images save st images = Inr st' \<Longrightarrow>
   interiors_created st' + int (length (errors st'))
     = interiors_created st + int (length (errors st)) + int (length images)"
proof (induction images arbitrary: st)
  case Nil
  then show ?case by simp
next
  case (Cons im images)
  from Cons.prems obtain st1 where step: "process_image save st im = Inr st1"
    and rest: "for_images save st1 images = Inr st'"
    by (cases "process_image save st im") simp_all
  have "interiors_created st1 + int (length (errors st1))
          = interiors_created st + int (length (errors st)) + 1"
    using process_image_one_outcome [OF step] by auto
  moreover have "interiors_created st' + int (length (errors st'))
          = interiors_created st1 + int (length (errors st1)) + int (length images)"
    using rest by (rule Cons.IH)
  ultimately show ?case
    by simp
qed

text \<open>
  Claim C9. When no exception leaves the loop, the number of records created plus the
  number of error messages is the number of files: the sum grows by one in each
  iteration, which either counts one success and adds no message, or adds one message
  and counts no success.
\<close>

theorem successes_plus_errors:
  "(for_images save (initial_state db) images = Inr st' \<longrightarrow>
      interiors_created st' + int (length (errors st')) = int (length images))
   \<and> (process_image save st im = Inr st1 \<longrightarrow>
        (interiors_created st1 = interiors_created st + 1 \<and> errors st1 = errors st)
        \<or> (interiors_created st1 = interiors_created st
            \<and> (\<exists>line. errors st1 = errors st @ [line])))"
proof (intro conjI impI)
  assume "for_images save (initial_state db) images = Inr st'"
  then have "interiors_created st' + int (length (errors st'))
      = interiors_created (initial_state db) + int (length (errors (initial_state db)))
        + int (length images)"
    by (rule for_images_count)
  then show "interiors_created st' + int (length (errors st')) = int (length images)"
    by (simp add: initial_state_def)
next
  assume "process_image save st im = Inr st1"
  then show "(interiors_created st1 = interiors_created st + 1 \<and> errors st1 = errors st)
        \<or> (interiors_created st1 = interiors_created st
            \<and> (\<exists>line. errors st1 = errors st @ [line]))"
    by (rule process_image_one_outcome)
qed

theorem successes_plus_errors_witness:
  "for_images (reject_name ''B'') (initial_state []) [upload ''a.png'', upload ''b.png'', upload ''c.png'']
     = Inr \<lparr>interiors_created = 2,
            errors = [error_line ''B'' (Exception ''save failed'')],
            name_local = Some ''C'',
            store = [\<lparr>name = ''A'', image = upload ''a.png''\<rparr>, \<lparr>name = ''C'', image = upload ''c.png''\<rparr>]\<rparr>
   \<and> (2::int) + int (length [error_line ''B'' (Exception ''save failed'')]) = int (length [upload ''a.png'', upload ''b.png'', upload ''c.png''])
   \<and> process_image (reject_name ''B'') (initial_state []) (upload ''b.png'')
       = Inr \<lparr>interiors_created = 0, errors = [error_line ''B'' (Exception ''save failed'')],
              name_local = Some ''B'', store = []\<rparr>
   \<and> (\<exists>line. [error_line ''B'' (Exception ''save failed'')] = [] @ [line])"
proof -
  let ?st' = "\<lparr>interiors_created = 2,
            errors = [error_line ''B'' (Exception ''save failed'')],
            name_local = Some ''C'',
            store = [\<lparr>name = ''A'', image = upload ''a.png''\<rparr>, \<lparr>name = ''C'', image = upload ''c.png''\<rparr>]\<rparr>"
  let ?st1 = "\<lparr>interiors_created = 0, errors = [error_line ''B'' (Exception ''save failed'')],
              name_local = Some ''B'', store = []\<rparr>"
  have run: "for_images (reject_name ''B'') (initial_state [])
               [upload ''a.png'', upload ''b.png'', upload ''c.png''] = Inr ?st'"
    by code_simp
  have step: "process_image (reject_name ''B'') (initial_state []) (upload ''b.png'') = Inr ?st1"
    by code_simp
  have sum: "interiors_created ?st' + int (length (errors ?st'))
      = int (length [upload ''a.png'', upload ''b.png'', upload ''c.png''])"
    by (rule successes_plus_errors [THEN conjunct1, rule_format, OF run])
  have one: "(interiors_created ?st1 = interiors_created (initial_state []) + 1
                \<and> errors ?st1 = errors (initial_state []))
        \<or> (interiors_created ?st1 = interiors_created (initial_state [])
            \<and> (\<exists>line. errors ?st1 = errors (initial_state []) @ [line]))"
    by (rule successes_plus_errors [THEN conjunct2, rule_format, OF step])
  have a: "(2::int) + int (length [error_line ''B'' (Exception ''save failed'')])
      = int (length [upload ''a.png'', upload ''b.png'', upload ''c.png''])"
    using sum by simp
  have b: "\<exists>line. [error_line ''B'' (Exception ''save failed'')] = [] @ [line]"
    using one by (simp add: initial_state_def)
  show ?thesis
    by (intro conjI run a step b)
qed

section \<open>Batches in which every file, or every file but one, succeeds\<close>

lemma all_succeed_Cons:
  assumes "all_succeed save db (im # images)"
  shows "\<exists>fn nm. file_name im = Some fn \<and> display_name fn = Inr nm
           \<and> save db \<lparr>name = nm, image = im\<rparr> = None
           \<and> all_succeed save (db @ [\<lparr>name = nm, image = im\<rparr>]) images"
proof (cases rule: process_image_cases [where save = save and st = "initial_state db" and im = im])
  case unbound
  then show ?thesis
    using assms by (simp add: try_body_nameless)
next
  case (stale nm)
  then show ?thesis
    using assms by (simp add: try_body_nameless)
next
  case (rejected fn nm e)
  then show ?thesis
    using assms by (simp add: try_body_rejected)
next
  case (saved fn nm)
  then have "all_succeed save (db @ [\<lparr>name = nm, image = im\<rparr>]) images"
    using assms by (simp add: try_body_saved initial_state_def)
  moreover have "save db \<lparr>name = nm, image = im\<rparr> = None"
    using saved(3) by (simp add: initial_state_def)
  ultimately show ?thesis
    using saved(1,2) by (intro exI [of _ fn] exI [of _ nm] conjI)
qed

lemma for_images_all_succeed:
  "all_succeed save (store st) images \<Longrightarrow>
   \<exists>st'. for_images save st images = Inr st'
     \<and> interiors_created st' = interiors_created st + int (length images)
     \<and> errors st' = errors st
     \<and> length (store st') = length (store st) + length images"
proof (induction images arbitrary: st)
  case Nil
  then show ?case by simp
next
  case (Cons im images)
  from all_succeed_Cons [OF Cons.prems]
  obtain fn nm where fn: "file_name im = Some fn" and nm: "display_name fn = Inr nm"
    and ok: "save (store st) \<lparr>name = nm, image = im\<rparr> = None"
    and rest: "all_succeed save (store st @ [\<lparr>name = nm, image = im\<rparr>]) images"
    by (elim exE conjE)
  let ?st1 = "st\<lparr>name_local := Some nm, store := store st @ [\<lparr>name = nm, image = im\<rparr>],
                 interiors_created := interiors_created st + 1\<rparr>"
  have step: "process_image save st im = Inr ?st1"
    using fn nm ok by (rule process_image_saved)
  have "all_succeed save (store ?st1) images"
    using rest by simp
  from Cons.IH [OF this]
  obtain st' where run: "for_images save ?st1 images = Inr st'"
    and c: "interiors_created st' = interiors_created ?st1 + int (length images)"
    and e: "errors st' = errors ?st1"
    and l: "length (store st') = length (store ?st1) + length images"
    by (elim exE conjE)
  have "for_images save st (im # images) = Inr st'"
    using step run by simp
  moreover have "interiors_created st' = interiors_created st + int (length (im # images))"
    using c by simp
  moreover have "errors st' = errors st"
    using e by simp
  moreover have "length (store st') = length (store st) + length (im # images)"
    using l by simp
  ultimately show ?case
    by (intro exI [of _ st'] conjI)
qed

text \<open>
  Claim C3. When the construction and the persistence succeed for every file of a batch
  of \<open>N\<close> files, the loop ends with a success count of \<open>N\<close> and no error message.
\<close>

theorem all_succeed_counts_all:
  "all_succeed save db images \<Longrightarrow>
   \<exists>st'. for_images save (initial_state db) images = Inr st'
     \<and> interiors_created st' = int (length images) \<and> errors st' = []"
proof -
  assume "all_succeed save db images"
  then have "all_succeed save (store (initial_state db)) images"
    by (simp add: initial_state_def)
  from for_images_all_succeed [OF this]
  obtain st' where "for_images save (initial_state db) images = Inr st'"
    and "interiors_created st' = interiors_created (initial_state db) + int (length images)"
    and "errors st' = errors (initial_state db)"
    by (elim exE conjE)
  then have "for_images save (initial_state db) images = Inr st'
     \<and> interiors_created st' = int (length images) \<and> errors st' = []"
    by (simp add: initial_state_def)
  then show ?thesis
    by (rule exI)
qed

theorem all_succeed_counts_all_witness:
  "all_succeed accept_all [] [upload ''sofa.png'', upload ''arm_chair.jpg'']
   \<and> (\<exists>st'. for_images accept_all (initial_state []) [upload ''sofa.png'', upload ''arm_chair.jpg'']
              = Inr st'
          \<and> interiors_created st' = 2 \<and> errors st' = [])"
proof -
  have h: "all_succeed accept_all [] [upload ''sofa.png'', upload ''arm_chair.jpg'']"
    by code_simp
  have "\<exists>st'. for_images accept_all (initial_state []) [upload ''sofa.png'', upload ''arm_chair.jpg'']
              = Inr st'
          \<and> interiors_created st' = int (length [upload ''sofa.png'', upload ''arm_chair.jpg''])
          \<and> errors st' = []"
    using h by (rule all_succeed_counts_all)
  then have "\<exists>st'. for_images accept_all (initial_state []) [upload ''sofa.png'', upload ''arm_chair.jpg'']
              = Inr st'
          \<and> interiors_created st' = 2 \<and> errors st' = []"
    by simp
  then show ?thesis
    using h by (intro conjI)
qed

lemma store_after_returned:
  "for_images save (initial_state db) images = Inr st \<Longrightarrow> store_after save db images = store st"
  by (simp add: store_after_def end_state_def)

text \<open>
  Claim C4. In a batch of \<open>N\<close> files where the construction or persistence fails for
  exactly one file (the files before it and after it all succeed), the failure is caught
  and the loop goes on: it ends with a success count of \<open>N - 1\<close>, with the records of
  all other files in the store, and with the single error message
  \<open>Error creating interior '<displayName>': <failure detail>\<close> for the failing file.
\<close>

theorem one_failure_is_isolated:
  assumes "all_succeed save db pre"
    and "file_name bad = Some fn" and "display_name fn = Inr nm"
    and "save (store_after save db pre) \<lparr>name = nm, image = bad\<rparr> = Some e"
    and "all_succeed save (store_after save db pre) post"
  shows "\<exists>st'. for_images save (initial_state db) (pre @ bad # post) = Inr st'
     \<and> interiors_created st' = int (length (pre @ bad # post)) - 1
     \<and> errors st' = [''Error creating interior '' @ [CHR 0x27] @ nm @ [CHR 0x27] @ '': '' @ str_exc e]
     \<and> length (store st') = length db + length pre + length post"
proof -
  have "all_succeed save (store (initial_state db)) pre"
    using assms(1) by (simp add: initial_state_def)
  from for_images_all_succeed [OF this]
  obtain st1 where run1: "for_images save (initial_state db) pre = Inr st1"
    and c1: "interiors_created st1 = interiors_created (initial_state db) + int (length pre)"
    and e1: "errors st1 = errors (initial_state db)"
    and l1: "length (store st1) = length (store (initial_state db)) + length pre"
    by (elim exE conjE)
  have after: "store_after save db pre = store st1"
    using run1 by (rule store_after_returned)
  let ?st2 = "st1\<lparr>name_local := Some nm, errors := errors st1 @ [error_line nm e]\<rparr>"
  have "save (store st1) \<lparr>name = nm, image = bad\<rparr> = Some e"
    using assms(4) after by simp
  with assms(2,3) have step: "process_image save st1 bad = Inr ?st2"
    by (rule process_image_rejected)
  have "all_succeed save (store ?st2) post"
    using assms(5) after by simp
  from for_images_all_succeed [OF this]
  obtain st' where run2: "for_images save ?st2 post = Inr st'"
    and c2: "interiors_created st' = interiors_created ?st2 + int (length post)"
    and e2: "errors st' = errors ?st2"
    and l2: "length (store st') = length (store ?st2) + length post"
    by (elim exE conjE)
  have "for_images save st1 (bad # post) = Inr st'"
    using step run2 by simp
  then have run: "for_images save (initial_state db) (pre @ bad # post) = Inr st'"
    using run1 by (simp add: for_images_append)
  have c: "interiors_created st' = int (length (pre @ bad # post)) - 1"
    using c1 c2 by (simp add: initial_state_def)
  have e: "errors st' = [''Error creating interior '' @ [CHR 0x27] @ nm @ [CHR 0x27] @ '': '' @ str_exc e]"
    using e1 e2 by (simp add: initial_state_def error_line_def sq_def)
  have l: "length (store st') = length db + length pre + length post"
    using l1 l2 by (simp add: initial_state_def)
  show ?thesis
    using run c e l by (intro exI [of _ st'] conjI)
qed

theorem one_failure_is_isolated_witness:
  "all_succeed (reject_name ''B'') [] [upload ''a.png'']
   \<and> file_name (upload ''b.png'') = Some ''b.png''
   \<and> display_name ''b.png'' = Inr ''B''
   \<and> reject_name ''B'' (store_after (reject_name ''B'') [] [upload ''a.png''])
        \<lparr>name = ''B'', image = upload ''b.png''\<rparr> = Some (Exception ''save failed'')
   \<and> all_succeed (reject_name ''B'') (store_after (reject_name ''B'') [] [upload ''a.png''])
        [upload ''c.png'']
   \<and> (\<exists>st'. for_images (reject_name ''B'') (initial_state [])
               [upload ''a.png'', upload ''b.png'', upload ''c.png''] = Inr st'
         \<and> interiors_created st' = 2
         \<and> errors st' = [''Error creating interior '' @ [CHR 0x27] @ ''B'' @ [CHR 0x27] @ '': save failed'']
         \<and> length (store st') = 2)"
proof -
  have h1: "all_succeed (reject_name ''B'') [] [upload ''a.png'']"
    by code_simp
  have h2: "file_name (upload ''b.png'') = Some ''b.png''"
    by (simp add: upload_def)
  have h3: "display_name ''b.png'' = Inr ''B''"
    by code_simp
  have h4: "reject_name ''B'' (store_after (reject_name ''B'') [] [upload ''a.png''])
        \<lparr>name = ''B'', image = upload ''b.png''\<rparr> = Some (Exception ''save failed'')"
    by (simp add: reject_name_def)
  have h5: "all_succeed (reject_name ''B'') (store_after (reject_name ''B'') [] [upload ''a.png''])
        [upload ''c.png'']"
    by code_simp
  have "\<exists>st'. for_images (reject_name ''B'') (initial_state [])
               ([upload ''a.png''] @ upload ''b.png'' # [upload ''c.png'']) = Inr st'
         \<and> interiors_created st' = int (length ([upload ''a.png''] @ upload ''b.png'' # [upload ''c.png''])) - 1
         \<and> errors st' = [''Error creating interior '' @ [CHR 0x27] @ ''B'' @ [CHR 0x27] @ '': ''
                           @ str_exc (Exception ''save failed'')]
         \<and> length (store st') = length ([] :: store) + length [upload ''a.png''] + length [upload ''c.png'']"
    using h1 h2 h3 h4 h5 by (rule one_failure_is_isolated)
  then have r: "\<exists>st'. for_images (reject_name ''B'') (initial_state [])
               [upload ''a.png'', upload ''b.png'', upload ''c.png''] = Inr st'
         \<and> interiors_created st' = 2
         \<and> errors st' = [''Error creating interior '' @ [CHR 0x27] @ ''B'' @ [CHR 0x27] @ '': save failed'']
         \<and> length (store st') = 2"
    by (simp add: numeral_2_eq_2 del: for_images.simps)
  show ?thesis
    by (intro conjI h1 h2 h3 h4 h5 r)
qed

section \<open>Batches of named files\<close>

text \<open>
  The files that the form validation lets through have names. For a file with a name,
  lines 94 and 97 cannot raise: the local \<open>name\<close> is bound to the display name of the
  file itself before anything can fail, the iteration ends without an exception, and so
  does the loop.
\<close>

lemma process_image_named_returns:
  assumes "file_name im = Some fn"
  shows "\<exists>st' nm. process_image save st im = Inr st' \<and> display_name fn = Inr nm
           \<and> name_local st' = Some nm"
proof -
  obtain nm where nm: "display_name fn = Inr nm"
    using display_name_total [of fn] by (elim exE)
  show ?thesis
  proof (cases "save (store st) \<lparr>name = nm, image = im\<rparr>")
    case None
    with assms nm have "process_image save st im
       = Inr (st\<lparr>name_local := Some nm, store := store st @ [\<lparr>name = nm, image = im\<rparr>],
                 interiors_created := interiors_created st + 1\<rparr>)"
      by (rule process_image_saved)
    then show ?thesis
      using nm by simp
  next
    case (Some e)
    with assms nm have "process_image save st im
       = Inr (st\<lparr>name_local := Some nm, errors := errors st @ [error_line nm e]\<rparr>)"
      by (rule process_image_rejected)
    then show ?thesis
      using nm by simp
  qed
qed

lemma for_images_named_returns:
  "\<forall>im\<in>set images. file_name im \<noteq> None \<Longrightarrow> \<exists>st'. for_images save st images = Inr st'"
proof (induction images arbitrary: st)
  case Nil
  show ?case by simp
next
  case (Cons im images)
  then obtain fn where fn: "file_name im = Some fn"
    by auto
  obtain st1 where step: "process_image save st im = Inr st1"
    using process_image_named_returns [OF fn, of save st] by (elim exE conjE)
  have "\<exists>st'. for_images save st1 images = Inr st'"
    using Cons.prems by (intro Cons.IH) simp
  then show ?case
    using step by simp
qed

section \<open>The records a batch stores\<close>




section \<open>The view \<open>bulk_upload_view\<close>\<close>

lemma bulk_upload_view_valid_post:
  assumes "request_method req = ''POST''" and "is_valid req"
    and "for_images save (initial_state db) (getlist (FILES req) ''images'') = Inr st"
  shows "bulk_upload_view save is_valid req msgs db
     = Inr \<lparr>response = Redirect ''admin:interiors_interiors_changelist'',
            messages = msgs
              @ (if interiors_created st > 0
                 then [Success (''Successfully created '' @ str_int (interiors_created st) @ '' interiors.'')]
                 else [])
              @ map Error (errors st),
            saved = store st\<rparr>"
  using assms by (simp add: bulk_upload_view_def Let_def)

text \<open>
  Claim C8. A valid POST whose \<open>images\<close> field holds no file: the loop ends at once with
  a success count of 0, the view queues no notification, neither a success nor an error,
  saves nothing and redirects to the changelist. In general, for a valid POST whose loop
  ends, the notifications queued are the success notification, present exactly when the
  success count is greater than 0, followed by one error notification for each error
  message.
\<close>

theorem empty_batch_redirects:
  "(request_method req = ''POST'' \<and> is_valid req \<and> getlist (FILES req) ''images'' = [] \<longrightarrow>
      for_images save (initial_state db) (getlist (FILES req) ''images'') = Inr (initial_state db)
      \<and> interiors_created (initial_state db) = 0
      \<and> errors (initial_state db) = []
      \<and> bulk_upload_view save is_valid req msgs db
          = Inr \<lparr>response = Redirect ''admin:interiors_interiors_changelist'',
                 messages = msgs, saved = db\<rparr>)
   \<and> (request_method req = ''POST'' \<and> is_valid req
        \<and> for_images save (initial_state db) (getlist (FILES req) ''images'') = Inr st \<longrightarrow>
        (\<exists>res. bulk_upload_view save is_valid req msgs db = Inr res
           \<and> response res = Redirect ''admin:interiors_interiors_changelist''
           \<and> messages res
               = msgs
                 @ (if interiors_created st > 0
                    then [Success (''Successfully created '' @ str_int (interiors_created st)
                                     @ '' interiors.'')]
                    else [])
                 @ map Error (errors st)))"
proof (intro conjI impI)
  assume a: "request_method req = ''POST'' \<and> is_valid req \<and> getlist (FILES req) ''images'' = []"
  then have run: "for_images save (initial_state db) (getlist (FILES req) ''images'')
      = Inr (initial_state db)"
    by simp
  then show "for_images save (initial_state db) (getlist (FILES req) ''images'')
      = Inr (initial_state db)" .
  show "interiors_created (initial_state db) = 0"
    by (simp add: initial_state_def)
  show "errors (initial_state db) = []"
    by (simp add: initial_state_def)
  have "bulk_upload_view save is_valid req msgs db
     = Inr \<lparr>response = Redirect ''admin:interiors_interiors_changelist'',
            messages = msgs
              @ (if interiors_created (initial_state db) > 0
                 then [Success (''Successfully created ''
                                  @ str_int (interiors_created (initial_state db)) @ '' interiors.'')]
                 else [])
              @ map Error (errors (initial_state db)),
            saved = store (initial_state db)\<rparr>"
    using a run by (intro bulk_upload_view_valid_post) simp_all
  then show "bulk_upload_view save is_valid req msgs db
          = Inr \<lparr>response = Redirect ''admin:interiors_interiors_changelist'',
                 messages = msgs, saved = db\<rparr>"
    by (simp add: initial_state_def)
next
  assume a: "request_method req = ''POST'' \<and> is_valid req
        \<and> for_images save (initial_state db) (getlist (FILES req) ''images'') = Inr st"
  then have "bulk_upload_view save is_valid req msgs db
     = Inr \<lparr>response = Redirect ''admin:interiors_interiors_changelist'',
            messages = msgs
              @ (if interiors_created st > 0
                 then [Success (''Successfully created '' @ str_int (interiors_created st) @ '' interiors.'')]
                 else [])
              @ map Error (errors st),
            saved = store st\<rparr>"
    by (intro bulk_upload_view_valid_post) simp_all
  then show "\<exists>res. bulk_upload_view save is_valid req msgs db = Inr res
           \<and> response res = Redirect ''admin:interiors_interiors_changelist''
           \<and> messages res
               = msgs
                 @ (if interiors_created st > 0
                    then [Success (''Successfully created '' @ str_int (interiors_created st)
                                     @ '' interiors.'')]
                    else [])
                 @ map Error (errors st)"
    by simp
qed

theorem empty_batch_redirects_witness:
  "request_method (post_of []) = ''POST'' \<and> always_valid (post_of [])
   \<and> getlist (FILES (post_of [])) ''images'' = []
   \<and> bulk_upload_view accept_all always_valid (post_of []) [] []
       = Inr \<lparr>response = Redirect ''admin:interiors_interiors_changelist'',
              messages = [], saved = []\<rparr>
   \<and> for_images (reject_name ''B'') (initial_state [])
        (getlist (FILES (post_of [upload ''a.png'', upload ''b.png'', upload ''c.png''])) ''images'')
       = Inr \<lparr>interiors_created = 2,
              errors = [error_line ''B'' (Exception ''save failed'')],
              name_local = Some ''C'',
              store = [\<lparr>name = ''A'', image = upload ''a.png''\<rparr>,
                       \<lparr>name = ''C'', image = upload ''c.png''\<rparr>]\<rparr>
   \<and> (\<exists>res. bulk_upload_view (reject_name ''B'') always_valid
                (post_of [upload ''a.png'', upload ''b.png'', upload ''c.png'']) [] [] = Inr res
          \<and> response res = Redirect ''admin:interiors_interiors_changelist''
          \<and> messages res = [Success ''Successfully created 2 interiors.'',
                             Error (error_line ''B'' (Exception ''save failed''))])"
proof -
  let ?batch = "[upload ''a.png'', upload ''b.png'', upload ''c.png'']"
  let ?st = "\<lparr>interiors_created = 2,
              errors = [error_line ''B'' (Exception ''save failed'')],
              name_local = Some ''C'',
              store = [\<lparr>name = ''A'', image = upload ''a.png''\<rparr>,
                       \<lparr>name = ''C'', image = upload ''c.png''\<rparr>]\<rparr>"
  have m0: "request_method (post_of []) = ''POST''" and v0: "always_valid (post_of [])"
    and g0: "getlist (FILES (post_of [])) ''images'' = []"
    by (simp_all add: post_of_def always_valid_def getlist_def)
  have m3: "request_method (post_of ?batch) = ''POST''" and v3: "always_valid (post_of ?batch)"
    and g3: "getlist (FILES (post_of ?batch)) ''images'' = ?batch"
    by (simp_all add: post_of_def always_valid_def getlist_def)
  have "for_images (reject_name ''B'') (initial_state []) ?batch = Inr ?st"
    by code_simp
  then have run: "for_images (reject_name ''B'') (initial_state [])
        (getlist (FILES (post_of ?batch)) ''images'') = Inr ?st"
    unfolding g3 .
  have two: "str_int 2 = ''2''"
    by code_simp
  have first: "bulk_upload_view accept_all always_valid (post_of []) [] []
       = Inr \<lparr>response = Redirect ''admin:interiors_interiors_changelist'',
              messages = [], saved = []\<rparr>"
    using empty_batch_redirects
            [of "post_of []" always_valid accept_all "[]" "[]", THEN conjunct1, rule_format]
          m0 v0 g0
    by simp
  have "\<exists>res. bulk_upload_view (reject_name ''B'') always_valid (post_of ?batch) [] [] = Inr res
          \<and> response res = Redirect ''admin:interiors_interiors_changelist''
          \<and> messages res
               = []
                 @ (if interiors_created ?st > 0
                    then [Success (''Successfully created '' @ str_int (interiors_created ?st)
                                     @ '' interiors.'')]
                    else [])
                 @ map Error (errors ?st)"
    using m3 v3 run
    by (intro empty_batch_redirects [THEN conjunct2, rule_format] conjI)
  then have second: "\<exists>res. bulk_upload_view (reject_name ''B'') always_valid (post_of ?batch) [] [] = Inr res
          \<and> response res = Redirect ''admin:interiors_interiors_changelist''
          \<and> messages res = [Success ''Successfully created 2 interiors.'',
                             Error (error_line ''B'' (Exception ''save failed''))]"
    by (simp add: two)
  show ?thesis
    by (intro conjI m0 v0 g0 first run second)
qed

section \<open>The view mode of \<open>changelist_view\<close>\<close>

lemma changelist_view_with_parameter:
  "GET req ''view'' = Some v \<Longrightarrow>
   fst (changelist_view req ctx) ''view_mode'' = Some v
   \<and> snd (changelist_view req ctx) = (session req)(''view_mode'' \<mapsto> v)"
  by (simp add: changelist_view_def Let_def)

lemma changelist_view_without_parameter:
  "GET req ''view'' = None \<Longrightarrow>
   fst (changelist_view req ctx) ''view_mode''
     = Some (case session req ''view_mode'' of None \<Rightarrow> ''list'' | Some v \<Rightarrow> v)
   \<and> snd (changelist_view req ctx) = session req"
  by (simp add: changelist_view_def Let_def)

lemma serve_without_parameter:
  "\<forall>q\<in>set queries. q ''view'' = None \<Longrightarrow> serve sess queries = sess"
proof (induction queries arbitrary: sess)
  case Nil
  then show ?case by simp
next
  case (Cons q queries)
  then have "GET \<lparr>GET = q, session = sess\<rparr> ''view'' = None"
    by simp
  then have "snd (changelist_view \<lparr>GET = q, session = sess\<rparr> None) = sess"
    using changelist_view_without_parameter [of "\<lparr>GET = q, session = sess\<rparr>" None] by simp
  then show ?case
    using Cons by simp
qed

text \<open>
  Claim C7. A changelist request with \<open>view=grid\<close> in its query string uses the view mode
  \<open>grid\<close> and writes it into the session. A later request of the same session without
  a \<open>view\<close> parameter, with any number of such requests in between, reads \<open>grid\<close> from
  the session. A request with neither the parameter nor a view mode in its session uses
  \<open>list\<close>.
\<close>

theorem view_mode_persists:
  "(GET req1 ''view'' = Some ''grid'' \<longrightarrow>
      fst (changelist_view req1 ctx1) ''view_mode'' = Some ''grid''
      \<and> snd (changelist_view req1 ctx1) ''view_mode'' = Some ''grid'')
   \<and> (GET req1 ''view'' = Some ''grid'' \<and> (\<forall>q\<in>set between. q ''view'' = None)
        \<and> GET req2 ''view'' = None
        \<and> session req2 = serve (snd (changelist_view req1 ctx1)) between \<longrightarrow>
        fst (changelist_view req2 ctx2) ''view_mode'' = Some ''grid''
        \<and> snd (changelist_view req2 ctx2) ''view_mode'' = Some ''grid'')
   \<and> (GET req ''view'' = None \<and> session req ''view_mode'' = None \<longrightarrow>
        fst (changelist_view req ctx) ''view_mode'' = Some ''list'')"
proof (intro conjI impI)
  assume "GET req1 ''view'' = Some ''grid''"
  then have "fst (changelist_view req1 ctx1) ''view_mode'' = Some ''grid''
     \<and> snd (changelist_view req1 ctx1) = (session req1)(''view_mode'' \<mapsto> ''grid'')"
    by (rule changelist_view_with_parameter)
  then show "fst (changelist_view req1 ctx1) ''view_mode'' = Some ''grid''"
    and "snd (changelist_view req1 ctx1) ''view_mode'' = Some ''grid''"
    by simp_all
next
  assume a: "GET req1 ''view'' = Some ''grid'' \<and> (\<forall>q\<in>set between. q ''view'' = None)
        \<and> GET req2 ''view'' = None
        \<and> session req2 = serve (snd (changelist_view req1 ctx1)) between"
  then have "snd (changelist_view req1 ctx1) = (session req1)(''view_mode'' \<mapsto> ''grid'')"
    using changelist_view_with_parameter [of req1 "''grid''" ctx1] by simp
  moreover have "serve (snd (changelist_view req1 ctx1)) between = snd (changelist_view req1 ctx1)"
    using a by (intro serve_without_parameter) simp
  ultimately have s: "session req2 ''view_mode'' = Some ''grid''"
    using a by simp
  have "fst (changelist_view req2 ctx2) ''view_mode''
     = Some (case session req2 ''view_mode'' of None \<Rightarrow> ''list'' | Some v \<Rightarrow> v)
     \<and> snd (changelist_view req2 ctx2) = session req2"
    using a by (intro changelist_view_without_parameter) simp
  then show "fst (changelist_view req2 ctx2) ''view_mode'' = Some ''grid''"
    and "snd (changelist_view req2 ctx2) ''view_mode'' = Some ''grid''"
    using s by simp_all
next
  assume a: "GET req ''view'' = None \<and> session req ''view_mode'' = None"
  then have "fst (changelist_view req ctx) ''view_mode''
     = Some (case session req ''view_mode'' of None \<Rightarrow> ''list'' | Some v \<Rightarrow> v)
     \<and> snd (changelist_view req ctx) = session req"
    by (intro changelist_view_without_parameter) simp
  then show "fst (changelist_view req ctx) ''view_mode'' = Some ''list''"
    using a by simp
qed

theorem view_mode_persists_witness:
  "GET \<lparr>GET = [''view'' \<mapsto> ''grid''], session = Map.empty\<rparr> ''view'' = Some ''grid''
   \<and> snd (changelist_view \<lparr>GET = [''view'' \<mapsto> ''grid''], session = Map.empty\<rparr> None) ''view_mode''
       = Some ''grid''
   \<and> (Map.empty :: string \<rightharpoonup> string) ''view'' = None
   \<and> [''q'' \<mapsto> ''sofa''] ''view'' = None
   \<and> fst (changelist_view
            \<lparr>GET = [''p'' \<mapsto> ''2''],
             session = serve (snd (changelist_view
                                     \<lparr>GET = [''view'' \<mapsto> ''grid''], session = Map.empty\<rparr> None))
                         [Map.empty, [''q'' \<mapsto> ''sofa'']]\<rparr> None) ''view_mode''
       = Some ''grid''
   \<and> fst (changelist_view \<lparr>GET = Map.empty, session = Map.empty\<rparr> None) ''view_mode''
       = Some ''list''"
proof -
  let ?r1 = "\<lparr>GET = [''view'' \<mapsto> ''grid''], session = Map.empty\<rparr> :: changelist_request"
  let ?between = "[Map.empty, [''q'' \<mapsto> ''sofa'']] :: (string \<rightharpoonup> string) list"
  let ?r2 = "\<lparr>GET = [''p'' \<mapsto> ''2''],
              session = serve (snd (changelist_view ?r1 None)) ?between\<rparr> :: changelist_request"
  let ?r0 = "\<lparr>GET = Map.empty, session = Map.empty\<rparr> :: changelist_request"
  have g1: "GET ?r1 ''view'' = Some ''grid''"
    by simp
  have b: "\<forall>q\<in>set ?between. q ''view'' = None"
    by simp
  have g2: "GET ?r2 ''view'' = None"
    by simp
  have s2: "session ?r2 = serve (snd (changelist_view ?r1 None)) ?between"
    by simp
  have g0: "GET ?r0 ''view'' = None \<and> session ?r0 ''view_mode'' = None"
    by simp
  have w1: "snd (changelist_view ?r1 None) ''view_mode'' = Some ''grid''"
    using view_mode_persists [of ?r1 None, THEN conjunct1, rule_format, OF g1] by (rule conjunct2)
  have w2: "fst (changelist_view ?r2 None) ''view_mode'' = Some ''grid''"
    using view_mode_persists [of ?r1 None ?between ?r2 None,
            THEN conjunct2, THEN conjunct1, rule_format] g1 b g2 s2
    by blast
  have w3: "fst (changelist_view ?r0 None) ''view_mode'' = Some ''list''"
    by (rule view_mode_persists [THEN conjunct2, THEN conjunct2, rule_format, OF g0])
  have b1: "(Map.empty :: string \<rightharpoonup> string) ''view'' = None"
    and b2: "[''q'' \<mapsto> ''sofa''] ''view'' = None"
    by simp_all
  show ?thesis
    by (intro conjI g1 w1 b1 b2 w2 w3)
qed

section \<open>The preview of \<open>image_preview\<close>\<close>

lemma escape_char_plain:
  "c \<notin> {CHR ''&'', CHR ''<'', CHR ''>'', CHR 0x22, CHR 0x27} \<Longrightarrow> escape_char c = [c]"
  by simp

lemma conditional_escape_plain:
  "\<forall>c\<in>set s. c \<notin> {CHR ''&'', CHR ''<'', CHR ''>'', CHR 0x22, CHR 0x27} \<Longrightarrow>
   conditional_escape s = s"
proof (induction s)
  case Nil
  then show ?case by (simp add: conditional_escape_def)
next
  case (Cons c s)
  then have "escape_char c = [c]" and "conditional_escape s = s"
    by (simp_all del: escape_char.simps add: escape_char_plain)
  then show ?case
    by (simp add: conditional_escape_def del: escape_char.simps)
qed

lemma format_img_tag:
  "format (''<img src='' @ dq ''{}'' @ '' style=''
             @ dq ''max-width: 100px; max-height: 100px; border-radius:5px;'' @ '' />'') [a]
     = Inr (''<img src='' @ [CHR 0x22] @ a @ [CHR 0x22] @ '' style='' @ [CHR 0x22]
              @ ''max-width: 100px; max-height: 100px; border-radius:5px;'' @ [CHR 0x22] @ '' />'')"
  by (simp add: dq_def)

text \<open>
  Claim C10. For a record without an image, \<open>image_preview\<close> returns the text
  \<open>No Image\<close>. For a record with an image it returns the \<open>img\<close> element whose \<open>src\<close>
  attribute holds the URL of the image, escaped for HTML, which is the URL itself when
  it has none of the five characters that HTML escapes. In both cases the function
  returns: it raises nothing.
\<close>

theorem image_preview_result:
  "(image obj = None \<longrightarrow> image_preview obj = Inr ''No Image'')
   \<and> (\<forall>img. image obj = Some img \<longrightarrow>
         image_preview obj
           = Inr (''<img src='' @ [CHR 0x22] @ conditional_escape (url img) @ [CHR 0x22]
                    @ '' style='' @ [CHR 0x22]
                    @ ''max-width: 100px; max-height: 100px; border-radius:5px;''
                    @ [CHR 0x22] @ '' />'')
         \<and> ((\<forall>c\<in>set (url img). c \<notin> {CHR ''&'', CHR ''<'', CHR ''>'', CHR 0x22, CHR 0x27}) \<longrightarrow>
              conditional_escape (url img) = url img))
   \<and> (\<exists>html. image_preview obj = Inr html)"
proof -
  have none: "image_preview obj = Inr ''No Image''" if "image obj = None"
    using that by (simp add: image_preview_def)
  have some: "image_preview obj
           = Inr (''<img src='' @ [CHR 0x22] @ conditional_escape (url img) @ [CHR 0x22]
                    @ '' style='' @ [CHR 0x22]
                    @ ''max-width: 100px; max-height: 100px; border-radius:5px;''
                    @ [CHR 0x22] @ '' />'')" if "image obj = Some img" for img
    using that format_img_tag [of "conditional_escape (url img)"]
    by (simp add: image_preview_def format_html_def del: format.simps)
  have plain: "conditional_escape (url img) = url img"
    if "\<forall>c\<in>set (url img). c \<notin> {CHR ''&'', CHR ''<'', CHR ''>'', CHR 0x22, CHR 0x27}" for img
    using that by (rule conditional_escape_plain)
  have returns: "\<exists>html. image_preview obj = Inr html"
  proof (cases "image obj")
    case None
    then show ?thesis using none by blast
  next
    case (Some img)
    then show ?thesis using some by blast
  qed
  show ?thesis
    using none some plain returns by blast
qed

theorem image_preview_result_witness:
  "image \<lparr>name = ''Sofa'', image = None :: field_file option\<rparr> = None
   \<and> image_preview \<lparr>name = ''Sofa'', image = None\<rparr> = Inr ''No Image''
   \<and> image \<lparr>name = ''Sofa'', image = Some \<lparr>url = ''/media/sofa.png''\<rparr>\<rparr> = Some \<lparr>url = ''/media/sofa.png''\<rparr>
   \<and> conditional_escape ''/media/sofa.png'' = ''/media/sofa.png''
   \<and> image_preview \<lparr>name = ''Sofa'', image = Some \<lparr>url = ''/media/sofa.png''\<rparr>\<rparr>
       = Inr (''<img src='' @ [CHR 0x22] @ ''/media/sofa.png'' @ [CHR 0x22]
                    @ '' style='' @ [CHR 0x22]
                    @ ''max-width: 100px; max-height: 100px; border-radius:5px;''
                    @ [CHR 0x22] @ '' />'')"
proof -
  let ?a = "\<lparr>name = ''Sofa'', image = None :: field_file option\<rparr>"
  let ?img = "\<lparr>url = ''/media/sofa.png''\<rparr>"
  let ?b = "\<lparr>name = ''Sofa'', image = Some ?img\<rparr>"
  have ha: "image ?a = None"
    by simp
  have hb: "image ?b = Some ?img"
    by simp
  have hc: "\<forall>c\<in>set (url ?img). c \<notin> {CHR ''&'', CHR ''<'', CHR ''>'', CHR 0x22, CHR 0x27}"
    by simp
  have wa: "image_preview ?a = Inr ''No Image''"
    by (rule image_preview_result [of ?a, THEN conjunct1, rule_format, OF ha])
  note both = image_preview_result [of ?b, THEN conjunct2, THEN conjunct1, rule_format, OF hb]
  have esc: "conditional_escape (url ?img) = url ?img"
    using both [THEN conjunct2] hc by (rule mp)
  have wb: "image_preview ?b
       = Inr (''<img src='' @ [CHR 0x22] @ ''/media/sofa.png'' @ [CHR 0x22]
                    @ '' style='' @ [CHR 0x22]
                    @ ''max-width: 100px; max-height: 100px; border-radius:5px;''
                    @ [CHR 0x22] @ '' />'')"
    using both [THEN conjunct1] esc by (simp del: append.simps)
  have esc': "conditional_escape ''/media/sofa.png'' = ''/media/sofa.png''"
    using esc by simp
  show ?thesis
    by (intro conjI ha wa hb esc' wb)
qed

end
